theory Spec2Isabelle
  imports Main "HOL-Library.Log_Nat" "HOL-Library.Char_ord" "HOL-Library.List_Lexorder"
begin

section \<open>Binary64 arithmetic\<close>

text \<open>
  The program computes with C++ \<open>double\<close>. A finite double is a rational number, and
  every operation of the program (\<open>*\<close>, \<open>+\<close>, the conversion of an \<open>int\<close>, a decimal
  literal) is the exact result rounded to the nearest binary64 value, ties to even. The
  model is therefore: a double is a \<open>rat\<close>, and each operation is the exact operation
  followed by \<open>round_double\<close>. Each operation is rounded on its own (no fused
  multiply-add, no extended precision).

  \<open>round_double\<close> has 53 significant bits and the exponent range of binary64 from
  below (spacing \<open>2 powi -1074\<close> under \<open>2 powi -1022\<close>). It has no overflow to infinity:
  \<open>score_in_binary64_range\<close> below shows that for 32-bit inputs no value of the scorer
  comes near \<open>2 powi 1024\<close>, so infinities and NaN never arise in this program.
\<close>

type_synonym double = rat

definition ilog2 :: "rat \<Rightarrow> int" where
  \<comment> \<open>for \<open>0 < x\<close>: the \<open>e\<close> with \<open>2 powi e \<le> x < 2 powi (e + 1)\<close>\<close>
  "ilog2 x = (let (p, q) = quotient_of x; d = bitlen p - bitlen q
              in if 2 powi d \<le> x then d else d - 1)"

definition round_half_even :: "rat \<Rightarrow> int" where
  "round_half_even r =
     (let f = \<lfloor>r\<rfloor>; d = r - of_int f
      in if d < 1 / 2 then f
         else if 1 / 2 < d then f + 1
         else if even f then f else f + 1)"

definition ulp_of :: "rat \<Rightarrow> rat" where
  \<comment> \<open>the spacing of binary64 values around \<open>x \<noteq> 0\<close>\<close>
  "ulp_of x = 2 powi (max (ilog2 \<bar>x\<bar>) (- 1022) - 52)"

definition round_double :: "rat \<Rightarrow> double" where
  "round_double x =
     (if x = 0 then 0 else of_int (round_half_even (x / ulp_of x)) * ulp_of x)"

definition dmul :: "double \<Rightarrow> double \<Rightarrow> double" where
  \<comment> \<open>\<open>a * b\<close> on doubles\<close>
  "dmul a b = round_double (a * b)"

definition dadd :: "double \<Rightarrow> double \<Rightarrow> double" where
  \<comment> \<open>\<open>a + b\<close> on doubles\<close>
  "dadd a b = round_double (a + b)"

definition double_of_int :: "int \<Rightarrow> double" where
  \<comment> \<open>the implicit conversion of an \<open>int\<close> operand\<close>
  "double_of_int n = round_double (of_int n)"

definition double_literal :: "rat \<Rightarrow> double" where
  \<comment> \<open>a decimal literal of the source, such as \<open>0.8\<close>\<close>
  "double_literal q = round_double q"

definition int32 :: "int \<Rightarrow> bool" where
  \<comment> \<open>the values of the C++ type \<open>int\<close>\<close>
  "int32 n = (- 2147483648 \<le> n \<and> n \<le> 2147483647)"


section \<open>Data model\<close>

datatype RiskLevel = LOW | MEDIUM | HIGH

datatype VehicleType = CAR | TRUCK | MOTORCYCLE

text \<open>
  Class \<open>Vehicle\<close>: the private members are read through their accessors only, so the
  record's fields carry the accessors' names. \<open>getYear\<close> and \<open>getAccidentCount\<close> are C++
  \<open>int\<close>s, modelled as \<open>int\<close>; \<open>int32\<close> is stated where the bound matters.
\<close>

record Vehicle =
  getMake :: string
  getModel :: string
  getYear :: int
  getType :: VehicleType
  getAccidentCount :: int
  getIsCommercial :: bool


section \<open>Risk scorer\<close>

text \<open>
  \<open>InsuranceRisk\<close> is the abstract class; \<open>CarRiskCalculator\<close> is its only subclass and
  holds a reference to the vehicle. The virtual calls are the pattern matches below.
  \<open>2024 - getYear vehicle\<close> is a subtraction of \<open>int\<close>s; it is the mathematical
  difference whenever that is an \<open>int\<close>, which holds for every year that \<open>main\<close>
  accepts.
\<close>

datatype InsuranceRisk = CarRiskCalculator Vehicle

definition BASE_RISK :: double where
  "BASE_RISK = double_literal (8 / 10)"

fun calculateBaseRisk :: "InsuranceRisk \<Rightarrow> double" where
  "calculateBaseRisk (CarRiskCalculator vehicle) =
     dmul BASE_RISK
       (if getIsCommercial vehicle then double_literal (15 / 10) else double_literal 1)"

fun applyModifiers :: "InsuranceRisk \<Rightarrow> double \<Rightarrow> double" where
  "applyModifiers (CarRiskCalculator vehicle) risk =
     dmul
       (dmul risk
          (dadd (double_literal 1)
             (dmul (double_of_int (2024 - getYear vehicle)) (double_literal (5 / 100)))))
       (dadd (double_literal 1)
          (dmul (double_of_int (getAccidentCount vehicle)) (double_literal (15 / 100))))"

fun calculateTotalRisk :: "InsuranceRisk \<Rightarrow> double" where
  "calculateTotalRisk (CarRiskCalculator vehicle) =
     applyModifiers (CarRiskCalculator vehicle)
       (calculateBaseRisk (CarRiskCalculator vehicle))"

definition createCalculator :: "Vehicle \<Rightarrow> InsuranceRisk" where
  \<comment> \<open>\<open>RiskCalculatorFactory::createCalculator\<close>\<close>
  "createCalculator vehicle = CarRiskCalculator vehicle"


section \<open>Categorizer\<close>

definition categorizeRisk :: "double \<Rightarrow> RiskLevel" where
  "categorizeRisk score =
     (if score < double_literal (12 / 10) then LOW
      else if score < double_literal (18 / 10) then MEDIUM
      else HIGH)"


section \<open>Assessment record\<close>

text \<open>
  \<open>riskCategories\<close> is a \<open>std::map<string, RiskLevel>\<close>: an ordered container whose
  iteration visits the entries by ascending key under \<open>std::less<string>\<close>, the
  lexicographic order on the bytes of the strings (the order of \<open>char list\<close> here).
  The model is the sequence of entries in iteration order. \<open>map_assign k v\<close> is the
  statement \<open>m[k] = v\<close>: \<open>operator[]\<close> finds the position of \<open>k\<close> with the comparison
  \<open><\<close> alone, inserts an entry there when no entry has an equivalent key, and the
  assignment writes \<open>v\<close> into the entry.
\<close>

fun map_assign :: "string \<Rightarrow> 'v \<Rightarrow> (string \<times> 'v) list \<Rightarrow> (string \<times> 'v) list" where
  "map_assign k v [] = [(k, v)]"
| "map_assign k v ((k', v') # rest) =
     (if k' < k then (k', v') # map_assign k v rest
      else if k < k' then (k, v) # (k', v') # rest
      else (k', v) # rest)"

record InsuranceRiskSystem =
  riskCategories :: "(string \<times> RiskLevel) list"

definition new_system :: InsuranceRiskSystem where
  \<comment> \<open>the default-constructed \<open>InsuranceRiskSystem system\<close> of \<open>main\<close>\<close>
  "new_system = \<lparr>riskCategories = []\<rparr>"

definition vehicleId :: "Vehicle \<Rightarrow> string" where
  \<comment> \<open>the local \<open>vehicleId\<close> of \<open>assessVehicleRisk\<close>\<close>
  "vehicleId vehicle = getMake vehicle @ '' '' @ getModel vehicle"

definition assessVehicleRisk :: "Vehicle \<Rightarrow> InsuranceRiskSystem \<Rightarrow> InsuranceRiskSystem" where
  "assessVehicleRisk vehicle sys =
     (let calculator = createCalculator vehicle;
          risk = calculateTotalRisk calculator
      in sys\<lparr>riskCategories :=
               map_assign (vehicleId vehicle) (categorizeRisk risk) (riskCategories sys)\<rparr>)"

fun assess_each :: "InsuranceRiskSystem \<Rightarrow> Vehicle list \<Rightarrow> InsuranceRiskSystem" where
  \<comment> \<open>the calls of \<open>assessVehicleRisk\<close> that the \<open>do\<close> loop of \<open>main\<close> makes, one per vehicle entered\<close>
  "assess_each sys [] = sys"
| "assess_each sys (vehicle # vehicles) = assess_each (assessVehicleRisk vehicle sys) vehicles"

definition newline :: char where
  "newline = CHR 0x0A"

fun riskLevelStr :: "RiskLevel \<Rightarrow> string" where
  "riskLevelStr LOW = ''LOW''"
| "riskLevelStr MEDIUM = ''MEDIUM''"
| "riskLevelStr HIGH = ''HIGH''"

fun print_entries :: "(string \<times> RiskLevel) list \<Rightarrow> string" where
  \<comment> \<open>the range-based \<open>for\<close> of \<open>printRiskAssessment\<close>; the result is what \<open>cout\<close> receives\<close>
  "print_entries [] = []"
| "print_entries (risk # rest) =
     (''Vehicle: '' @ fst risk @ [newline] @ ''Risk Level: '' @ riskLevelStr (snd risk)
        @ [newline])
     @ print_entries rest"

definition printRiskAssessment :: "InsuranceRiskSystem \<Rightarrow> string" where
  "printRiskAssessment sys = print_entries (riskCategories sys)"


section \<open>Console input of \<open>main\<close>\<close>

text \<open>
  The console is the unread rest of standard input and the text written to standard
  output so far. \<open>extract_int\<close> is \<open>cin >> n\<close> for an \<open>int n\<close>: it skips white space,
  reads an optional sign and the longest run of decimal digits, and fails (\<open>None\<close>) when
  there is no digit or the value is not an \<open>int\<close>; the characters after the digits stay
  unread. At the end of input it fails and consumes nothing. \<open>cin_ignore_line\<close> is
  \<open>cin.ignore(numeric_limits<streamsize>::max(), '\n')\<close>. The error flags of the stream
  are not part of the state: every failed extraction of the loops below is followed by
  \<open>cin.clear()\<close>.
\<close>

record console =
  cin :: string
  cout :: string

definition isspace :: "char \<Rightarrow> bool" where
  "isspace c = (c \<in> set [CHR '' '', CHR 0x09, CHR 0x0A, CHR 0x0B, CHR 0x0C, CHR 0x0D])"

definition isdigit :: "char \<Rightarrow> bool" where
  "isdigit c = (CHR ''0'' \<le> c \<and> c \<le> CHR ''9'')"

definition digit_value :: "char \<Rightarrow> int" where
  "digit_value c = int (of_char c) - 48"

definition decimal :: "string \<Rightarrow> int" where
  "decimal ds = foldl (\<lambda>n c. 10 * n + digit_value c) 0 ds"

definition extract_int :: "string \<Rightarrow> int option \<times> string" where
  "extract_int inp =
     (let s = dropWhile isspace inp;
          (negative, s') =
             (case s of
                [] \<Rightarrow> (False, s)
              | c # r \<Rightarrow> if c = CHR ''-'' then (True, r)
                         else if c = CHR ''+'' then (False, r)
                         else (False, s));
          ds = takeWhile isdigit s';
          rest = dropWhile isdigit s';
          n = (if negative then - decimal ds else decimal ds)
      in if ds \<noteq> [] \<and> int32 n then (Some n, rest) else (None, rest))"

definition cin_ignore_line :: "string \<Rightarrow> string" where
  "cin_ignore_line inp = drop 1 (dropWhile (\<lambda>c. c \<noteq> newline) inp)"

definition year_error_message :: string where
  "year_error_message = ''Invalid year. Please enter a year between 1900 and 2024: ''"

text \<open>
  The \<open>while\<close> loop that reads the year. It need not terminate (at the end of input every
  extraction fails), so it is a partial function: \<open>None\<close> is the loop that never exits.
\<close>

partial_function (option) year_input_loop :: "console \<Rightarrow> (int \<times> console) option" where
  "year_input_loop con =
     (case extract_int (cin con) of
        (None, rest) \<Rightarrow>
          year_input_loop
            \<lparr>cin = cin_ignore_line rest, cout = cout con @ year_error_message\<rparr>
      | (Some year, rest) \<Rightarrow>
          if year < 1970 \<or> year > 2024
          then year_input_loop
                 \<lparr>cin = cin_ignore_line rest, cout = cout con @ year_error_message\<rparr>
          else Some (year, \<lparr>cin = rest, cout = cout con\<rparr>))"

declare year_input_loop.simps [code]

definition accident_error_message :: string where
  "accident_error_message = ''Invalid input. Please enter a non-negative number: ''"

partial_function (option) accident_input_loop :: "console \<Rightarrow> (int \<times> console) option" where
  "accident_input_loop con =
     (case extract_int (cin con) of
        (None, rest) \<Rightarrow>
          accident_input_loop
            \<lparr>cin = cin_ignore_line rest, cout = cout con @ accident_error_message\<rparr>
      | (Some accidentCount, rest) \<Rightarrow>
          if accidentCount < 0
          then accident_input_loop
                 \<lparr>cin = cin_ignore_line rest, cout = cout con @ accident_error_message\<rparr>
          else Some (accidentCount, \<lparr>cin = rest, cout = cout con\<rparr>))"

declare accident_input_loop.simps [code]


section \<open>The scoring formula as the specification states it\<close>

text \<open>
  The specification's formula. \<open>spec_score\<close> is the formula in binary64, written with
  the rounding itself: every literal, every conversion of an \<open>int\<close>, every product and
  every sum is the exact rational value rounded once, in the order in which the
  specification multiplies. The \<open>exact\<close> definitions are the formula over the rationals.
\<close>

definition spec_score :: "int \<Rightarrow> int \<Rightarrow> bool \<Rightarrow> double" where
  "spec_score yr accidents commercial =
     round_double
       (round_double
          (round_double
             (round_double (8 / 10)
                * (if commercial then round_double (15 / 10) else round_double 1))
           * round_double
               (round_double 1
                  + round_double (round_double (of_int (2024 - yr)) * round_double (5 / 100))))
        * round_double
            (round_double 1
               + round_double (round_double (of_int accidents) * round_double (15 / 100))))"

definition exact_base :: "bool \<Rightarrow> rat" where
  "exact_base commercial = 8 / 10 * (if commercial then 15 / 10 else 1)"

definition exact_age_factor :: "int \<Rightarrow> rat" where
  "exact_age_factor yr = 1 + of_int (2024 - yr) * (5 / 100)"

definition exact_accident_factor :: "int \<Rightarrow> rat" where
  "exact_accident_factor accidents = 1 + of_int accidents * (15 / 100)"

definition exact_score :: "int \<Rightarrow> int \<Rightarrow> bool \<Rightarrow> rat" where
  "exact_score yr accidents commercial =
     exact_base commercial * exact_age_factor yr * exact_accident_factor accidents"



text \<open>
  The report as a function of the record seen as a finite map: one pair of lines for
  every key, the keys taken in ascending order, the second line ending in the name of
  the key's category.
\<close>

definition report_line :: "string \<Rightarrow> RiskLevel \<Rightarrow> string" where
  "report_line k l =
     ''Vehicle: '' @ k @ ''\<newline>Risk Level: ''
       @ (case l of LOW \<Rightarrow> ''LOW'' | MEDIUM \<Rightarrow> ''MEDIUM'' | HIGH \<Rightarrow> ''HIGH'')
       @ ''\<newline>''"

definition report_of_map :: "(string \<rightharpoonup> RiskLevel) \<Rightarrow> string" where
  "report_of_map m =
     concat (map (\<lambda>k. report_line k (the (m k))) (sorted_list_of_set (dom m)))"


section \<open>Rounding to binary64\<close>

text \<open>\<open>ilog2\<close> is the binary exponent of a positive rational.\<close>

lemma ilog2_lower:
  assumes "0 < x"
  shows "2 powi (ilog2 x) \<le> x"
proof -
  obtain p q where pq: "quotient_of x = (p, q)" by (cases "quotient_of x")
  have q: "0 < q" using quotient_of_denom_pos [OF pq] .
  have x: "x = of_int p / of_int q" using quotient_of_div [OF pq] .
  have p: "0 < p" using assms q x by (simp add: zero_less_divide_iff)
  define d where "d = bitlen p - bitlen q"
  have bp1: "1 \<le> bitlen p" using p bitlen_eq_zero_iff [of p] bitlen_nonneg [of p] by linarith
  have "(2::int) ^ nat (bitlen p - 1) \<le> p" using bitlen_bounds [OF p] by simp
  then have "rat_of_int (2 ^ nat (bitlen p - 1)) \<le> of_int p" by (simp only: of_int_le_iff)
  then have lo: "(2::rat) ^ nat (bitlen p - 1) \<le> of_int p" by simp
  have "q < 2 ^ nat (bitlen q)" using bitlen_bounds [OF q] by simp
  then have "rat_of_int q \<le> of_int (2 ^ nat (bitlen q))" by (simp only: of_int_le_iff)
  then have hi: "of_int q \<le> (2::rat) ^ nat (bitlen q)" by simp
  have "(2::rat) powi (d - 1) = 2 powi (bitlen p - 1) / 2 powi (bitlen q)"
    using power_int_diff [of "2::rat" "bitlen p - 1" "bitlen q"] by (simp add: d_def algebra_simps)
  also have "\<dots> = 2 ^ nat (bitlen p - 1) / 2 ^ nat (bitlen q)"
    using bp1 bitlen_nonneg [of q] by (simp add: power_int_def)
  also have "\<dots> \<le> of_int p / of_int q"
  proof (rule frac_le)
    show "0 \<le> rat_of_int p" using p by simp
    show "(2::rat) ^ nat (bitlen p - 1) \<le> of_int p" by (rule lo)
    show "0 < rat_of_int q" using q by simp
    show "rat_of_int q \<le> 2 ^ nat (bitlen q)" by (rule hi)
  qed
  finally have "2 powi (d - 1) \<le> x" using x by simp
  then show ?thesis
    by (simp add: ilog2_def pq d_def Let_def)
qed

lemma ilog2_upper:
  assumes "0 < x"
  shows "x < 2 powi (ilog2 x + 1)"
proof -
  obtain p q where pq: "quotient_of x = (p, q)" by (cases "quotient_of x")
  have q: "0 < q" using quotient_of_denom_pos [OF pq] .
  have x: "x = of_int p / of_int q" using quotient_of_div [OF pq] .
  have p: "0 < p" using assms q x by (simp add: zero_less_divide_iff)
  define d where "d = bitlen p - bitlen q"
  have bq1: "1 \<le> bitlen q" using q bitlen_eq_zero_iff [of q] bitlen_nonneg [of q] by linarith
  have "p < 2 ^ nat (bitlen p)" using bitlen_bounds [OF p] by simp
  then have "rat_of_int p < of_int (2 ^ nat (bitlen p))" by (simp only: of_int_less_iff)
  then have hi: "of_int p < (2::rat) ^ nat (bitlen p)" by simp
  have "(2::int) ^ nat (bitlen q - 1) \<le> q" using bitlen_bounds [OF q] by simp
  then have "rat_of_int (2 ^ nat (bitlen q - 1)) \<le> of_int q" by (simp only: of_int_le_iff)
  then have lo: "(2::rat) ^ nat (bitlen q - 1) \<le> of_int q" by simp
  have "x < 2 ^ nat (bitlen p) / 2 ^ nat (bitlen q - 1)"
    unfolding x
  proof (rule frac_less)
    show "0 \<le> rat_of_int p" using p by simp
    show "rat_of_int p < 2 ^ nat (bitlen p)" by (rule hi)
    show "(0::rat) < 2 ^ nat (bitlen q - 1)" by simp
    show "(2::rat) ^ nat (bitlen q - 1) \<le> of_int q" by (rule lo)
  qed
  also have "\<dots> = 2 powi (bitlen p) / 2 powi (bitlen q - 1)"
    using bq1 bitlen_nonneg [of p] by (simp add: power_int_def)
  also have "\<dots> = (2::rat) powi (d + 1)"
    using power_int_diff [of "2::rat" "bitlen p" "bitlen q - 1"] by (simp add: d_def algebra_simps)
  finally have "x < 2 powi (d + 1)" .
  then show ?thesis
    by (auto simp add: ilog2_def pq d_def Let_def not_le)
qed

lemma ulp_of_pos: "0 < ulp_of x"
  by (simp add: ulp_of_def zero_less_power_int)

lemma round_half_even_nonneg: "0 \<le> r \<Longrightarrow> 0 \<le> round_half_even r"
  by (simp add: round_half_even_def Let_def)

lemma round_half_even_close: "\<bar>of_int (round_half_even r) - r\<bar> \<le> 1 / 2"
proof -
  have "of_int \<lfloor>r\<rfloor> \<le> r" "r < of_int \<lfloor>r\<rfloor> + 1" by linarith+
  then show ?thesis
    by (auto simp add: round_half_even_def Let_def abs_le_iff)
qed

lemma round_double_nonneg: "0 \<le> x \<Longrightarrow> 0 \<le> round_double x"
  using ulp_of_pos [of x] round_half_even_nonneg [of "x / ulp_of x"]
  by (simp add: round_double_def)

lemma round_double_close: "\<bar>round_double x - x\<bar> \<le> ulp_of x / 2"
proof (cases "x = 0")
  case True
  then show ?thesis using ulp_of_pos [of x] by (simp add: round_double_def)
next
  case False
  define u where "u = ulp_of x"
  have u: "0 < u" unfolding u_def by (rule ulp_of_pos)
  have "\<bar>of_int (round_half_even (x / u)) - x / u\<bar> * u \<le> 1 / 2 * u"
    using round_half_even_close [of "x / u"] u by (intro mult_right_mono) simp_all
  moreover have "\<bar>of_int (round_half_even (x / u)) - x / u\<bar> * u
      = \<bar>of_int (round_half_even (x / u)) * u - x\<bar>"
  proof -
    have "\<bar>of_int (round_half_even (x / u)) - x / u\<bar> * u
        = \<bar>(of_int (round_half_even (x / u)) - x / u) * u\<bar>"
      using u by (simp add: abs_mult)
    also have "(of_int (round_half_even (x / u)) - x / u) * u
        = of_int (round_half_even (x / u)) * u - x"
      using u by (simp add: left_diff_distrib)
    finally show ?thesis .
  qed
  ultimately show ?thesis using False by (simp add: round_double_def u_def)
qed

lemma ulp_of_le:
  assumes "x \<noteq> 0"
  shows "ulp_of x \<le> max (\<bar>x\<bar> / 2 ^ 52) (2 powi (- 1074))"
proof (cases "- 1022 \<le> ilog2 \<bar>x\<bar>")
  case True
  have "ulp_of x = 2 powi (ilog2 \<bar>x\<bar>) / 2 powi 52"
    using True power_int_diff [of "2::rat" "ilog2 \<bar>x\<bar>" 52] by (simp add: ulp_of_def max_def)
  also have "\<dots> \<le> \<bar>x\<bar> / 2 ^ 52"
    using ilog2_lower [of "\<bar>x\<bar>"] assms by (simp add: divide_right_mono)
  finally show ?thesis by simp
next
  case False
  then have "ulp_of x = 2 powi (- 1074)" by (simp add: ulp_of_def max_def)
  then show ?thesis by simp
qed

lemma ulp_of_crude:
  assumes "x \<noteq> 0"
  shows "ulp_of x \<le> \<bar>x\<bar> + 1"
proof -
  have a: "\<bar>x\<bar> / 2 ^ 52 \<le> \<bar>x\<bar>"
    by (simp add: divide_le_eq)
  have "(2::rat) powi (- 1074) \<le> 2 powi 0"
    by (rule power_int_increasing) simp_all
  then have b: "(2::rat) powi (- 1074) \<le> 1" by simp
  show ?thesis using ulp_of_le [OF assms] a b by (simp add: max_def split: if_splits)
qed

lemma round_double_crude: "\<bar>round_double x\<bar> \<le> 2 * \<bar>x\<bar> + 1"
proof (cases "x = 0")
  case True
  then show ?thesis by (simp add: round_double_def)
next
  case False
  show ?thesis
    using round_double_close [of x] ulp_of_crude [OF False] by linarith
qed


text \<open>
  Together with \<open>round_double_close\<close>: \<open>round_double x\<close> is a multiple of the spacing at
  \<open>x\<close> with a significand of at most 53 bits, and no other multiple is nearer to \<open>x\<close>.
\<close>

lemma round_half_even_abs_le:
  assumes "\<bar>r\<bar> \<le> of_int n"
  shows "\<bar>round_half_even r\<bar> \<le> n"
proof -
  have "r \<le> of_int n" "- of_int n \<le> r" using assms by linarith+
  then have "\<lfloor>r\<rfloor> \<le> n" "- n \<le> \<lfloor>r\<rfloor>" by (simp_all add: floor_le_iff le_floor_iff)
  moreover have "r < of_int n \<or> r = of_int n" using \<open>r \<le> of_int n\<close> by auto
  ultimately show ?thesis
    by (auto simp add: round_half_even_def Let_def abs_le_iff floor_less_iff)
qed

lemma round_double_significand:
  assumes "x \<noteq> 0"
  shows "round_double x = of_int (round_half_even (x / ulp_of x)) * ulp_of x \<and>
         \<bar>round_half_even (x / ulp_of x)\<bar> \<le> 2 ^ 53"
proof -
  have pos: "0 < \<bar>x\<bar>" using assms by simp
  define e where "e = max (ilog2 \<bar>x\<bar>) (- 1022)"
  have u: "ulp_of x = 2 powi (e - 52)" by (simp add: ulp_of_def e_def)
  have "\<bar>x\<bar> < 2 powi (ilog2 \<bar>x\<bar> + 1)" using ilog2_upper [OF pos] .
  also have "\<dots> \<le> 2 powi (e + 1)"
    by (rule power_int_increasing) (simp_all add: e_def)
  also have "\<dots> = 2 powi 53 * 2 powi (e - 52)"
    using power_int_add [of "2::rat" 53 "e - 52"] by (simp add: add.commute)
  finally have "\<bar>x\<bar> < 2 ^ 53 * ulp_of x" by (simp add: u)
  then have "\<bar>x / ulp_of x\<bar> \<le> 2 ^ 53"
    using ulp_of_pos [of x] by (simp add: pos_divide_le_eq abs_of_pos)
  then have "\<bar>x / ulp_of x\<bar> \<le> of_int (2 ^ 53)" by simp
  then have "\<bar>round_half_even (x / ulp_of x)\<bar> \<le> 2 ^ 53" by (rule round_half_even_abs_le)
  then show ?thesis using assms by (simp add: round_double_def)
qed


section \<open>Properties of the scorer and the categorizer\<close>

lemma literal_08: "double_literal (8 / 10) = 3602879701896397 / 4503599627370496"
  by code_simp

lemma literal_15: "double_literal (15 / 10) = 3 / 2"
  by code_simp

lemma literal_1: "double_literal 1 = 1"
  by code_simp

lemma literal_005: "double_literal (5 / 100) = 3602879701896397 / 72057594037927936"
  by code_simp

lemma literal_015: "double_literal (15 / 100) = 5404319552844595 / 36028797018963968"
  by code_simp

lemma base_private: "dmul BASE_RISK (double_literal 1) = 3602879701896397 / 4503599627370496"
  by code_simp

lemma base_commercial:
  "dmul BASE_RISK (double_literal (15 / 10)) = 5404319552844596 / 4503599627370496"
  by code_simp

lemma calculateBaseRisk_bounds:
  "0 \<le> calculateBaseRisk (CarRiskCalculator v) \<and> calculateBaseRisk (CarRiskCalculator v) \<le> 2"
  unfolding calculateBaseRisk.simps
  by (cases "getIsCommercial v") (simp_all only: if_True if_False base_private base_commercial, simp_all)

lemma dmul_nonneg: "0 \<le> a \<Longrightarrow> 0 \<le> b \<Longrightarrow> 0 \<le> dmul a b"
  unfolding dmul_def by (rule round_double_nonneg) simp

lemma dadd_nonneg: "0 \<le> a \<Longrightarrow> 0 \<le> b \<Longrightarrow> 0 \<le> dadd a b"
  unfolding dadd_def by (rule round_double_nonneg) simp

lemma double_of_int_nonneg: "0 \<le> n \<Longrightarrow> 0 \<le> double_of_int n"
  unfolding double_of_int_def by (rule round_double_nonneg) simp

lemma dmul_abs_le:
  assumes "\<bar>a\<bar> \<le> A" and "\<bar>b\<bar> \<le> B"
  shows "\<bar>dmul a b\<bar> \<le> 2 * (A * B) + 1"
proof -
  have "\<bar>a * b\<bar> \<le> A * B"
    unfolding abs_mult using assms by (intro mult_mono) simp_all
  then show ?thesis
    using round_double_crude [of "a * b"] by (simp add: dmul_def)
qed

lemma dadd_abs_le:
  assumes "\<bar>a\<bar> \<le> A" and "\<bar>b\<bar> \<le> B"
  shows "\<bar>dadd a b\<bar> \<le> 2 * (A + B) + 1"
proof -
  have "\<bar>a + b\<bar> \<le> A + B" using assms by linarith
  then show ?thesis
    using round_double_crude [of "a + b"] by (simp add: dadd_def)
qed

lemma double_of_int_abs_le:
  assumes "\<bar>n\<bar> \<le> N"
  shows "\<bar>double_of_int n\<bar> \<le> 2 * of_int N + 1"
proof -
  have "\<bar>rat_of_int n\<bar> \<le> of_int N"
    using assms by (metis of_int_abs of_int_le_iff)
  then show ?thesis
    using round_double_crude [of "of_int n"] by (simp add: double_of_int_def)
qed


lemma literal_005_abs: "\<bar>double_literal (5 / 100)\<bar> \<le> 1"
  unfolding literal_005 by simp

lemma literal_015_abs: "\<bar>double_literal (15 / 100)\<bar> \<le> 1"
  unfolding literal_015 by simp

lemma literal_005_nonneg: "0 \<le> double_literal (5 / 100)"
  unfolding literal_005 by simp

lemma literal_015_nonneg: "0 \<le> double_literal (15 / 100)"
  unfolding literal_015 by simp

lemma literal_1_abs: "\<bar>double_literal 1\<bar> \<le> 1"
  unfolding literal_1 by simp

lemma factor_abs_le:
  assumes "\<bar>n\<bar> \<le> N" and "\<bar>c\<bar> \<le> 1"
  shows "\<bar>dadd (double_literal 1) (dmul (double_of_int n) c)\<bar> \<le> 8 * of_int N + 9"
proof -
  have "\<bar>dmul (double_of_int n) c\<bar> \<le> 2 * ((2 * of_int N + 1) * 1) + 1"
    using double_of_int_abs_le [OF assms(1)] assms(2) by (rule dmul_abs_le)
  then have "\<bar>dadd (double_literal 1) (dmul (double_of_int n) c)\<bar>
      \<le> 2 * (1 + (2 * ((2 * of_int N + 1) * 1) + 1)) + 1"
    using literal_1_abs by (rule dadd_abs_le [rotated])
  then show ?thesis by simp
qed

lemma factor_nonneg:
  assumes "0 \<le> n" and "0 \<le> c"
  shows "0 \<le> dadd (double_literal 1) (dmul (double_of_int n) c)"
  using assms by (intro dadd_nonneg dmul_nonneg double_of_int_nonneg) (simp_all add: literal_1)



subsection \<open>The relative error of one rounding\<close>

lemma tiny_ulp: "(2::rat) powi (- 1074) = 2 powi (- 1022) / 2 ^ 52"
proof -
  have "(2::rat) powi (- 1022 - 52) = 2 powi (- 1022) / 2 powi 52"
    by (rule power_int_diff) simp
  moreover have "(2::rat) powi 52 = 2 ^ 52"
    by (simp only: power_int_numeral)
  moreover have "(- 1022 - 52 :: int) = - 1074" by simp
  ultimately show ?thesis by (simp only:)
qed

lemma round_double_rel:
  assumes "2 powi (- 1022) \<le> \<bar>x\<bar>"
  shows "\<bar>round_double x - x\<bar> \<le> \<bar>x\<bar> / 2 ^ 53"
proof -
  have "(0::rat) < 2 powi (- 1022)" by (rule zero_less_power_int) simp
  then have x: "x \<noteq> 0" using assms by auto
  have "(2::rat) powi (- 1074) \<le> \<bar>x\<bar> / 2 ^ 52"
    unfolding tiny_ulp using assms by (rule divide_right_mono) simp
  then have "ulp_of x \<le> \<bar>x\<bar> / 2 ^ 52"
    using ulp_of_le [OF x] by (simp only: max_def split: if_splits)
  then have "ulp_of x / 2 \<le> \<bar>x\<bar> / 2 ^ 52 / 2" by (rule divide_right_mono) simp
  also have "\<bar>x\<bar> / 2 ^ 52 / 2 = \<bar>x\<bar> / 2 ^ 53" by simp
  finally show ?thesis using round_double_close [of x] by (rule order_trans [rotated])
qed

lemma normal_one: "(2::rat) powi (- 1022) \<le> 1 / 64"
proof -
  have "(2::rat) powi (- 1022) \<le> 2 powi (- 6)"
    by (rule power_int_increasing) simp_all
  then show ?thesis by (simp add: power_int_minus)
qed

lemma round_double_interval:
  assumes "1 / 64 \<le> x"
  shows "(1 - 1 / 2 ^ 53) * x \<le> round_double x \<and> round_double x \<le> (1 + 1 / 2 ^ 53) * x"
proof -
  have "2 powi (- 1022) \<le> \<bar>x\<bar>" using assms normal_one by linarith
  from round_double_rel [OF this] have "\<bar>round_double x - x\<bar> \<le> x / 2 ^ 53"
    using assms by simp
  then have "round_double x - x \<le> x / 2 ^ 53" "x - round_double x \<le> x / 2 ^ 53"
    by linarith+
  then show ?thesis by (simp add: left_diff_distrib distrib_right)
qed


lemma dmul_interval:
  assumes "1 / 4 \<le> a" and "1 / 2 \<le> b"
  shows "(1 - 1 / 2 ^ 53) * (a * b) \<le> dmul a b \<and> dmul a b \<le> (1 + 1 / 2 ^ 53) * (a * b)"
proof -
  have "1 / 4 * (1 / 2) \<le> a * b"
    using assms by (intro mult_mono) simp_all
  then have "1 / 64 \<le> a * b" by simp
  then show ?thesis unfolding dmul_def by (rule round_double_interval)
qed

lemma dmul_ge_quarter:
  assumes "3 / 4 \<le> a" and "1 / 2 \<le> b"
  shows "1 / 4 \<le> dmul a b"
proof -
  have ab: "3 / 4 * (1 / 2) \<le> a * b"
    using assms by (intro mult_mono) simp_all
  have "1 / 4 \<le> a" using assms(1) by simp
  from dmul_interval [OF this assms(2)] have "(1 - 1 / 2 ^ 53) * (a * b) \<le> dmul a b" by simp
  moreover have "(1 - 1 / 2 ^ 53) * (3 / 4 * (1 / 2)) \<le> (1 - 1 / 2 ^ 53) * (a * b)"
    using ab by (rule mult_left_mono) simp
  ultimately show ?thesis by simp
qed

lemma factor_ge_half:
  assumes "0 \<le> n" and "0 \<le> c"
  shows "1 / 2 \<le> dadd (double_literal 1) (dmul (double_of_int n) c)"
proof -
  have "0 \<le> dmul (double_of_int n) c"
    using assms by (intro dmul_nonneg double_of_int_nonneg)
  then have "1 / 64 \<le> 1 + dmul (double_of_int n) c" by simp
  from round_double_interval [OF this]
  have "(1 - 1 / 2 ^ 53) * (1 + dmul (double_of_int n) c)
          \<le> dadd (double_literal 1) (dmul (double_of_int n) c)"
    by (simp add: dadd_def literal_1)
  moreover have "(1 - 1 / 2 ^ 53) * 1 \<le> (1 - 1 / 2 ^ 53) * (1 + dmul (double_of_int n) c)"
    using \<open>0 \<le> dmul (double_of_int n) c\<close> by (intro mult_left_mono) simp_all
  ultimately show ?thesis by simp
qed

lemma two_products_interval:
  assumes "3 / 4 \<le> b" and "1 / 2 \<le> A" and "1 / 2 \<le> B"
  shows "(1 - 1 / 2 ^ 53) * ((1 - 1 / 2 ^ 53) * (b * (A * B))) \<le> dmul (dmul b A) B \<and>
         dmul (dmul b A) B \<le> (1 + 1 / 2 ^ 53) * ((1 + 1 / 2 ^ 53) * (b * (A * B)))"
proof -
  define L :: rat where "L = 1 - 1 / 2 ^ 53"
  define H :: rat where "H = 1 + 1 / 2 ^ 53"
  have LH: "0 \<le> L" "0 \<le> H" by (simp_all add: L_def H_def)
  have b4: "1 / 4 \<le> b" using assms(1) by simp
  have B0: "0 \<le> B" using assms(3) by simp
  have p: "L * (b * A) \<le> dmul b A" "dmul b A \<le> H * (b * A)"
    using dmul_interval [OF b4 assms(2)] by (simp_all add: L_def H_def)
  have q: "1 / 4 \<le> dmul b A" using assms(1,2) by (rule dmul_ge_quarter)
  have s: "L * (dmul b A * B) \<le> dmul (dmul b A) B" "dmul (dmul b A) B \<le> H * (dmul b A * B)"
    using dmul_interval [OF q assms(3)] by (simp_all add: L_def H_def)
  have "L * (b * A) * B \<le> dmul b A * B" using p(1) B0 by (rule mult_right_mono)
  then have "L * (L * (b * A) * B) \<le> L * (dmul b A * B)" using LH(1) by (rule mult_left_mono)
  then have lo: "L * (L * (b * (A * B))) \<le> dmul (dmul b A) B"
    using s(1) by (simp add: mult.assoc)
  have "dmul b A * B \<le> H * (b * A) * B" using p(2) B0 by (rule mult_right_mono)
  then have "H * (dmul b A * B) \<le> H * (H * (b * A) * B)" using LH(2) by (rule mult_left_mono)
  then have hi: "dmul (dmul b A) B \<le> H * (H * (b * (A * B)))"
    using s(2) by (simp add: mult.assoc)
  show ?thesis using lo hi by (simp add: L_def H_def)
qed

lemma ratio_bound:
  fixes a b X :: rat
  assumes "a \<le> cu * X" and "cl * X \<le> b" and "0 \<le> X" and "cu \<le> r * cl" and "0 \<le> r"
  shows "a \<le> r * b"
proof -
  have "cu * X \<le> r * cl * X" using assms(4,3) by (rule mult_right_mono)
  moreover have "r * (cl * X) \<le> r * b" using assms(2,5) by (rule mult_left_mono)
  ultimately show ?thesis using assms(1) by (simp add: mult.assoc)
qed

lemma calculateBaseRisk_commercial:
  "getIsCommercial v \<Longrightarrow>
   calculateBaseRisk (CarRiskCalculator v) = 5404319552844596 / 4503599627370496"
  unfolding calculateBaseRisk.simps by (simp only: if_True base_commercial)

lemma calculateBaseRisk_private:
  "\<not> getIsCommercial v \<Longrightarrow>
   calculateBaseRisk (CarRiskCalculator v) = 3602879701896397 / 4503599627370496"
  unfolding calculateBaseRisk.simps by (simp only: if_False base_private)

lemma commercial_score_bound:
  assumes "1970 \<le> getYear v" and "getYear v \<le> 2024" and "0 \<le> getAccidentCount v"
  shows "\<bar>calculateTotalRisk (createCalculator (v\<lparr>getIsCommercial := True\<rparr>))
          - 15 / 10 * calculateTotalRisk (createCalculator (v\<lparr>getIsCommercial := False\<rparr>))\<bar>
         \<le> 15 / 10 * calculateTotalRisk (createCalculator (v\<lparr>getIsCommercial := False\<rparr>))
              / 2 ^ 50"
proof -
  define A where
    "A = dadd (double_literal 1) (dmul (double_of_int (2024 - getYear v)) (double_literal (5 / 100)))"
  define B where
    "B = dadd (double_literal 1)
             (dmul (double_of_int (getAccidentCount v)) (double_literal (15 / 100)))"
  define X where "X = A * B"
  define sc where "sc = calculateTotalRisk (createCalculator (v\<lparr>getIsCommercial := True\<rparr>))"
  define sn where "sn = calculateTotalRisk (createCalculator (v\<lparr>getIsCommercial := False\<rparr>))"
  define bc where "bc = calculateBaseRisk (CarRiskCalculator (v\<lparr>getIsCommercial := True\<rparr>))"
  define bn where "bn = calculateBaseRisk (CarRiskCalculator (v\<lparr>getIsCommercial := False\<rparr>))"
  have bc: "bc = 5404319552844596 / 4503599627370496"
    unfolding bc_def by (rule calculateBaseRisk_commercial) simp
  have bn: "bn = 3602879701896397 / 4503599627370496"
    unfolding bn_def by (rule calculateBaseRisk_private) simp
  have "sc = dmul (dmul bc A) B"
    by (simp add: sc_def createCalculator_def A_def B_def bc_def)
  then have sc: "sc = dmul (dmul (5404319552844596 / 4503599627370496) A) B"
    by (simp only: bc)
  have "sn = dmul (dmul bn A) B"
    by (simp add: sn_def createCalculator_def A_def B_def bn_def)
  then have sn: "sn = dmul (dmul (3602879701896397 / 4503599627370496) A) B"
    by (simp only: bn)
  have A: "1 / 2 \<le> A"
    unfolding A_def using assms(2) by (intro factor_ge_half literal_005_nonneg) simp
  have B: "1 / 2 \<le> B"
    unfolding B_def using assms(3) by (intro factor_ge_half literal_015_nonneg)
  have X: "0 \<le> X" using A B by (simp add: X_def)
  have c: "(1 - 1 / 2 ^ 53) * (1 - 1 / 2 ^ 53) * (5404319552844596 / 4503599627370496) * X \<le> sc"
      "sc \<le> (1 + 1 / 2 ^ 53) * (1 + 1 / 2 ^ 53) * (5404319552844596 / 4503599627370496) * X"
    using two_products_interval [of "5404319552844596 / 4503599627370496" A B] A B
    by (simp_all only: sc X_def mult.assoc)
  have n: "(1 - 1 / 2 ^ 53) * (1 - 1 / 2 ^ 53) * (3602879701896397 / 4503599627370496) * X \<le> sn"
      "sn \<le> (1 + 1 / 2 ^ 53) * (1 + 1 / 2 ^ 53) * (3602879701896397 / 4503599627370496) * X"
    using two_products_interval [of "3602879701896397 / 4503599627370496" A B] A B
    by (simp_all only: sn X_def mult.assoc)
  have "sc \<le> (15 / 10 + 15 / 10 / 2 ^ 50) * sn"
    using c(2) n(1) X by (rule ratio_bound) simp_all
  then have up: "sc - 15 / 10 * sn \<le> 15 / 10 * sn / 2 ^ 50"
    by (simp add: algebra_simps)
  have "sn \<le> 1 / (15 / 10 - 15 / 10 / 2 ^ 50) * sc"
    using n(2) c(1) X by (rule ratio_bound) simp_all
  then have "(15 / 10 - 15 / 10 / 2 ^ 50) * sn \<le> sc"
    by (simp add: field_simps)
  then have "- (sc - 15 / 10 * sn) \<le> 15 / 10 * sn / 2 ^ 50"
    by (simp add: algebra_simps)
  with up have "\<bar>sc - 15 / 10 * sn\<bar> \<le> 15 / 10 * sn / 2 ^ 50"
    by (rule abs_leI)
  then show ?thesis by (simp only: sc_def sn_def)
qed


subsection \<open>Accumulated roundings\<close>
















subsection \<open>The claims about the scorer and the categorizer\<close>

lemma literal_12: "double_literal (12 / 10) = 5404319552844595 / 4503599627370496"
  by code_simp

lemma literal_18: "double_literal (18 / 10) = 8106479329266893 / 4503599627370496"
  by code_simp

lemma literal_119999:
  "double_literal (119999 / 100000) = 5404274516848321 / 4503599627370496"
  by code_simp

lemma literal_179999:
  "double_literal (179999 / 100000) = 8106434293270619 / 4503599627370496"
  by code_simp

lemma calculateTotalRisk_formula:
  "calculateTotalRisk (createCalculator v) =
     spec_score (getYear v) (getAccidentCount v) (getIsCommercial v)"
  by (simp add: createCalculator_def spec_score_def BASE_RISK_def dmul_def dadd_def
      double_of_int_def double_literal_def)

text \<open>The scores of the vehicles that the examples below use.\<close>

lemma score_2014_2_commercial:
  "spec_score 2014 2 True = 5269211564023481 / 2251799813685248"
  by code_simp

lemma score_2024_0_private:
  "spec_score 2024 0 False = 3602879701896397 / 4503599627370496"
  by code_simp

lemma score_2024_1_commercial:
  "spec_score 2024 1 True = 6214967485771285 / 4503599627370496"
  by code_simp

lemma score_2024_1_private:
  "spec_score 2024 1 False = 517913957147607 / 562949953421312"
  by code_simp

lemma score_2024_1_private_times_1_5:
  "dmul (double_literal (3 / 2)) (517913957147607 / 562949953421312) =
     1553741871442821 / 1125899906842624"
  by code_simp




text \<open>
  C2. The categorizer returns LOW exactly for scores below the double \<open>1.2\<close>, MEDIUM
  exactly for scores from \<open>1.2\<close> up to but excluding the double \<open>1.8\<close>, and HIGH
  exactly for scores from \<open>1.8\<close> on; a score equal to a threshold is in the upper band,
  and the scores 1.19999 and 1.79999 are in the lower one.
  The thresholds are the doubles that the literals denote, and a score is any finite
  double (the scorer yields no other value, see \<open>score_in_binary64_range\<close>).
\<close>

theorem categorizeRisk_bands:
  "(categorizeRisk s = LOW \<longleftrightarrow> s < double_literal (12 / 10)) \<and>
   (categorizeRisk s = MEDIUM \<longleftrightarrow>
      double_literal (12 / 10) \<le> s \<and> s < double_literal (18 / 10)) \<and>
   (categorizeRisk s = HIGH \<longleftrightarrow> double_literal (18 / 10) \<le> s) \<and>
   categorizeRisk (double_literal (12 / 10)) = MEDIUM \<and>
   categorizeRisk (double_literal (18 / 10)) = HIGH \<and>
   categorizeRisk (double_literal (119999 / 100000)) = LOW \<and>
   categorizeRisk (double_literal (179999 / 100000)) = MEDIUM"
  unfolding categorizeRisk_def literal_12 literal_18 literal_119999 literal_179999 by auto

text \<open>
  C3. The scorer is a total function without a failing path: the model has no error
  result because the source has no \<open>throw\<close>, no division and no indexing. For a vehicle
  that passed the input validation (year in 1970..2024, accident count at least 0) the
  \<open>int\<close> subtraction \<open>2024 - year\<close> does not overflow, and the score is non-negative and
  bounded by \<open>65536 * (accidentCount + 2)\<close>, hence finite for every \<open>int\<close> accident count.
\<close>

theorem score_total_nonneg:
  assumes "1970 \<le> getYear v" and "getYear v \<le> 2024" and "0 \<le> getAccidentCount v"
  shows "int32 (2024 - getYear v) \<and>
         0 \<le> calculateTotalRisk (createCalculator v) \<and>
         calculateTotalRisk (createCalculator v) \<le> 65536 * (of_int (getAccidentCount v) + 2)"
proof -
  define base where "base = calculateBaseRisk (CarRiskCalculator v)"
  define age where
    "age = dadd (double_literal 1) (dmul (double_of_int (2024 - getYear v)) (double_literal (5 / 100)))"
  define acc where
    "acc = dadd (double_literal 1)
             (dmul (double_of_int (getAccidentCount v)) (double_literal (15 / 100)))"
  have score: "calculateTotalRisk (createCalculator v) = dmul (dmul base age) acc"
    by (simp add: createCalculator_def base_def age_def acc_def)
  have base: "0 \<le> base" "\<bar>base\<bar> \<le> 2"
    using calculateBaseRisk_bounds [of v] by (simp_all add: base_def)
  have age0: "0 \<le> age"
    unfolding age_def using assms(2) by (intro factor_nonneg literal_005_nonneg) simp
  have "\<bar>2024 - getYear v\<bar> \<le> 54" using assms by simp
  then have age: "\<bar>age\<bar> \<le> 441"
    unfolding age_def using factor_abs_le [of "2024 - getYear v" 54, OF _ literal_005_abs] by simp
  have acc0: "0 \<le> acc"
    unfolding acc_def using assms(3) by (intro factor_nonneg literal_015_nonneg)
  have "\<bar>getAccidentCount v\<bar> \<le> getAccidentCount v" using assms(3) by simp
  then have acc: "\<bar>acc\<bar> \<le> 8 * of_int (getAccidentCount v) + 9"
    unfolding acc_def by (rule factor_abs_le) (rule literal_015_abs)
  have r1: "\<bar>dmul base age\<bar> \<le> 1765"
    using dmul_abs_le [OF base(2) age] by simp
  have "\<bar>dmul (dmul base age) acc\<bar> \<le> 2 * (1765 * (8 * of_int (getAccidentCount v) + 9)) + 1"
    using r1 acc by (rule dmul_abs_le)
  then have "dmul (dmul base age) acc \<le> 28240 * of_int (getAccidentCount v) + 31771"
    by (simp add: abs_le_iff algebra_simps)
  also have "\<dots> \<le> 65536 * (of_int (getAccidentCount v) + 2)"
    using assms(3) by simp
  finally have up: "dmul (dmul base age) acc \<le> 65536 * (of_int (getAccidentCount v) + 2)" .
  have "0 \<le> dmul (dmul base age) acc"
    using base(1) age0 acc0 by (intro dmul_nonneg)
  moreover have "int32 (2024 - getYear v)" using assms by (simp add: int32_def)
  ultimately show ?thesis using up by (simp add: score)
qed


theorem score_total_nonneg_witness:
  "int32 (2024 - 2014) \<and>
   0 \<le> calculateTotalRisk (createCalculator
          \<lparr>getMake = ''Ford'', getModel = ''F150'', getYear = 2014, getType = TRUCK,
           getAccidentCount = 2, getIsCommercial = True\<rparr>) \<and>
   calculateTotalRisk (createCalculator
          \<lparr>getMake = ''Ford'', getModel = ''F150'', getYear = 2014, getType = TRUCK,
           getAccidentCount = 2, getIsCommercial = True\<rparr>) \<le> 65536 * (of_int 2 + 2)"
  using score_total_nonneg
    [of "\<lparr>getMake = ''Ford'', getModel = ''F150'', getYear = 2014, getType = TRUCK,
          getAccidentCount = 2, getIsCommercial = True\<rparr>"]
  by simp

text \<open>
  The values of the scorer stay inside the range of binary64 for all \<open>int\<close> operands:
  every rounded value of \<open>calculateTotalRisk\<close> has magnitude at most \<open>2 ^ 80\<close>.
\<close>

lemma score_in_binary64_range:
  assumes "int32 (getYear v)" and "int32 (2024 - getYear v)" and "int32 (getAccidentCount v)"
  defines "k \<equiv> double_of_int (2024 - getYear v)"
    and "a \<equiv> double_of_int (getAccidentCount v)"
    and "base \<equiv> calculateBaseRisk (CarRiskCalculator v)"
  defines "age \<equiv> dadd (double_literal 1) (dmul k (double_literal (5 / 100)))"
    and "acc \<equiv> dadd (double_literal 1) (dmul a (double_literal (15 / 100)))"
  shows "calculateTotalRisk (createCalculator v) = dmul (dmul base age) acc"
    and "\<bar>k\<bar> \<le> 2 ^ 80" and "\<bar>dmul k (double_literal (5 / 100))\<bar> \<le> 2 ^ 80" and "\<bar>age\<bar> \<le> 2 ^ 80"
    and "\<bar>a\<bar> \<le> 2 ^ 80" and "\<bar>dmul a (double_literal (15 / 100))\<bar> \<le> 2 ^ 80" and "\<bar>acc\<bar> \<le> 2 ^ 80"
    and "\<bar>base\<bar> \<le> 2 ^ 80" and "\<bar>dmul base age\<bar> \<le> 2 ^ 80"
    and "\<bar>dmul (dmul base age) acc\<bar> \<le> 2 ^ 80"
proof -
  show "calculateTotalRisk (createCalculator v) = dmul (dmul base age) acc"
    by (simp add: createCalculator_def base_def age_def acc_def k_def a_def)
  have kn: "\<bar>2024 - getYear v\<bar> \<le> 2147483648" using assms(2) unfolding int32_def by linarith
  have an: "\<bar>getAccidentCount v\<bar> \<le> 2147483648" using assms(3) unfolding int32_def by linarith
  have k: "\<bar>k\<bar> \<le> 4294967297"
    unfolding k_def using double_of_int_abs_le [OF kn] by simp
  have a: "\<bar>a\<bar> \<le> 4294967297"
    unfolding a_def using double_of_int_abs_le [OF an] by simp
  have kt: "\<bar>dmul k (double_literal (5 / 100))\<bar> \<le> 8589934595"
    using dmul_abs_le [OF k literal_005_abs] by simp
  have at: "\<bar>dmul a (double_literal (15 / 100))\<bar> \<le> 8589934595"
    using dmul_abs_le [OF a literal_015_abs] by simp
  have age: "\<bar>age\<bar> \<le> 17179869193"
    unfolding age_def using dadd_abs_le [OF literal_1_abs kt] by simp
  have acc: "\<bar>acc\<bar> \<le> 17179869193"
    unfolding acc_def using dadd_abs_le [OF literal_1_abs at] by simp
  have base: "\<bar>base\<bar> \<le> 2"
    using calculateBaseRisk_bounds [of v] by (simp add: base_def)
  have r1: "\<bar>dmul base age\<bar> \<le> 68719476773"
    using dmul_abs_le [OF base age] by simp
  have r2: "\<bar>dmul (dmul base age) acc\<bar> \<le> 2 * (68719476773 * 17179869193) + 1"
    using r1 acc by (rule dmul_abs_le)
  show "\<bar>k\<bar> \<le> 2 ^ 80" using k by simp
  show "\<bar>a\<bar> \<le> 2 ^ 80" using a by simp
  show "\<bar>dmul k (double_literal (5 / 100))\<bar> \<le> 2 ^ 80" using kt by simp
  show "\<bar>dmul a (double_literal (15 / 100))\<bar> \<le> 2 ^ 80" using at by simp
  show "\<bar>age\<bar> \<le> 2 ^ 80" using age by simp
  show "\<bar>acc\<bar> \<le> 2 ^ 80" using acc by simp
  show "\<bar>base\<bar> \<le> 2 ^ 80" using base by simp
  show "\<bar>dmul base age\<bar> \<le> 2 ^ 80" using r1 by simp
  show "\<bar>dmul (dmul base age) acc\<bar> \<le> 2 ^ 80" using r2 by simp
qed


text \<open>
  C4 as stated, that a commercial vehicle's score is exactly 1.5 times the score of the
  same vehicle without the flag, fails in double arithmetic. For year 2024 and one accident
  the commercial score is 1.3800000000000001 and the other score is 0.9199999999999999,
  whose product with 1.5 is 1.38, both as a rational product and as a double product.
\<close>

theorem commercial_score_counterexample:
  "calculateTotalRisk (createCalculator
      \<lparr>getMake = ''Toyota'', getModel = ''Corolla'', getYear = 2024, getType = CAR,
       getAccidentCount = 1, getIsCommercial = True\<rparr>)
     \<noteq> 3 / 2 * calculateTotalRisk (createCalculator
          \<lparr>getMake = ''Toyota'', getModel = ''Corolla'', getYear = 2024, getType = CAR,
           getAccidentCount = 1, getIsCommercial = False\<rparr>) \<and>
   calculateTotalRisk (createCalculator
      \<lparr>getMake = ''Toyota'', getModel = ''Corolla'', getYear = 2024, getType = CAR,
       getAccidentCount = 1, getIsCommercial = True\<rparr>)
     \<noteq> dmul (double_literal (3 / 2)) (calculateTotalRisk (createCalculator
          \<lparr>getMake = ''Toyota'', getModel = ''Corolla'', getYear = 2024, getType = CAR,
           getAccidentCount = 1, getIsCommercial = False\<rparr>))"
  by (simp add: calculateTotalRisk_formula score_2024_1_commercial score_2024_1_private
      score_2024_1_private_times_1_5)

lemma exact_commercial: "exact_score yr accidents True = 15 / 10 * exact_score yr accidents False"
  by (simp add: exact_score_def exact_base_def)

text \<open>
  C4, amended. For two vehicles that differ in the commercial flag only, the base risk of
  the commercial one is the double product of the other base risk and \<open>1.5\<close>, and the
  modifiers applied to the two base risks are the same function. When the vehicle passed
  the input validation (year in 1970..2024, accident count at least 0), the commercial
  score is 1.5 times the other score up to a relative error of at most \<open>2 ^ -50\<close>.
\<close>

theorem commercial_score_nearly_1_5_times:
  "calculateBaseRisk (createCalculator (v\<lparr>getIsCommercial := True\<rparr>)) =
     dmul (calculateBaseRisk (createCalculator (v\<lparr>getIsCommercial := False\<rparr>)))
       (double_literal (15 / 10)) \<and>
   applyModifiers (createCalculator (v\<lparr>getIsCommercial := True\<rparr>)) risk =
     applyModifiers (createCalculator (v\<lparr>getIsCommercial := False\<rparr>)) risk \<and>
   (1970 \<le> getYear v \<and> getYear v \<le> 2024 \<and> 0 \<le> getAccidentCount v \<longrightarrow>
      \<bar>calculateTotalRisk (createCalculator (v\<lparr>getIsCommercial := True\<rparr>))
         - 15 / 10 * calculateTotalRisk (createCalculator (v\<lparr>getIsCommercial := False\<rparr>))\<bar>
        \<le> 15 / 10 * calculateTotalRisk (createCalculator (v\<lparr>getIsCommercial := False\<rparr>))
             / 2 ^ 50)"
proof -
  have "dmul BASE_RISK (double_literal (15 / 10)) =
        dmul (dmul BASE_RISK (double_literal 1)) (double_literal (15 / 10))"
    unfolding base_private base_commercial by code_simp
  then have base: "calculateBaseRisk (createCalculator (v\<lparr>getIsCommercial := True\<rparr>)) =
     dmul (calculateBaseRisk (createCalculator (v\<lparr>getIsCommercial := False\<rparr>)))
       (double_literal (15 / 10))"
    by (simp add: createCalculator_def)
  have modifiers: "applyModifiers (createCalculator (v\<lparr>getIsCommercial := True\<rparr>)) risk =
     applyModifiers (createCalculator (v\<lparr>getIsCommercial := False\<rparr>)) risk"
    by (simp add: createCalculator_def)
  show ?thesis
    using base modifiers commercial_score_bound [of v] by blast
qed

theorem commercial_score_nearly_1_5_times_witness:
  "\<bar>calculateTotalRisk (createCalculator
        \<lparr>getMake = ''Toyota'', getModel = ''Corolla'', getYear = 2024, getType = CAR,
         getAccidentCount = 1, getIsCommercial = True\<rparr>)
      - 15 / 10 * calculateTotalRisk (createCalculator
        \<lparr>getMake = ''Toyota'', getModel = ''Corolla'', getYear = 2024, getType = CAR,
         getAccidentCount = 1, getIsCommercial = False\<rparr>)\<bar>
     \<le> 15 / 10 * calculateTotalRisk (createCalculator
        \<lparr>getMake = ''Toyota'', getModel = ''Corolla'', getYear = 2024, getType = CAR,
         getAccidentCount = 1, getIsCommercial = False\<rparr>) / 2 ^ 50"
  using commercial_score_nearly_1_5_times
    [of "\<lparr>getMake = ''Toyota'', getModel = ''Corolla'', getYear = 2024, getType = CAR,
          getAccidentCount = 1, getIsCommercial = False\<rparr>"]
  by simp

text \<open>
  C7. Scenario B of the specification: Ford F150, year 2014, two accidents, commercial.
  In exact arithmetic the base is 1.2, the age factor 1.5, the accident factor 1.3 and
  the score 2.34, which the categorizer maps to HIGH. The score that the program computes
  in double arithmetic for this vehicle, of any type, is 2.3400000000000003, within
  \<open>2 ^ -49\<close> of 2.34 in relative terms, and is mapped to HIGH as well.
\<close>

theorem scenario_ford_f150:
  "exact_base True = 12 / 10 \<and>
   exact_age_factor 2014 = 15 / 10 \<and>
   exact_accident_factor 2 = 13 / 10 \<and>
   exact_score 2014 2 True = 234 / 100 \<and>
   categorizeRisk (exact_score 2014 2 True) = HIGH \<and>
   \<bar>calculateTotalRisk (createCalculator
      \<lparr>getMake = ''Ford'', getModel = ''F150'', getYear = 2014, getType = t,
       getAccidentCount = 2, getIsCommercial = True\<rparr>) - 234 / 100\<bar> \<le> 234 / 100 / 2 ^ 49 \<and>
   categorizeRisk (calculateTotalRisk (createCalculator
      \<lparr>getMake = ''Ford'', getModel = ''F150'', getYear = 2014, getType = t,
       getAccidentCount = 2, getIsCommercial = True\<rparr>)) = HIGH"
proof -
  have e: "exact_base True = 12 / 10" "exact_age_factor 2014 = 15 / 10"
    "exact_accident_factor 2 = 13 / 10" "exact_score 2014 2 True = 234 / 100"
    by (simp_all add: exact_score_def exact_base_def exact_age_factor_def
        exact_accident_factor_def)
  have c: "categorizeRisk (234 / 100) = HIGH"
    unfolding categorizeRisk_def literal_12 literal_18 by simp
  have s: "calculateTotalRisk (createCalculator
      \<lparr>getMake = ''Ford'', getModel = ''F150'', getYear = 2014, getType = t,
       getAccidentCount = 2, getIsCommercial = True\<rparr>) = 5269211564023481 / 2251799813685248"
    by (simp add: calculateTotalRisk_formula score_2014_2_commercial)
  have d: "\<bar>5269211564023481 / 2251799813685248 - 234 / 100 :: rat\<bar> \<le> 234 / 100 / 2 ^ 49"
    by simp
  have h: "categorizeRisk (5269211564023481 / 2251799813685248) = HIGH"
    unfolding categorizeRisk_def literal_12 literal_18 by simp
  show ?thesis
    unfolding s e using c d h by (intro conjI) simp_all
qed

text \<open>
  C8. The vehicle type does not influence the assessment: for two vehicles that differ in
  the type only, the factory returns a \<open>CarRiskCalculator\<close>, and the base risk, the
  modifiers, the score, the category and the update of the record are the same.
\<close>

theorem score_independent_of_type:
  "createCalculator (v\<lparr>getType := t1\<rparr>) = CarRiskCalculator (v\<lparr>getType := t1\<rparr>) \<and>
   calculateBaseRisk (createCalculator (v\<lparr>getType := t1\<rparr>)) =
     calculateBaseRisk (createCalculator (v\<lparr>getType := t2\<rparr>)) \<and>
   applyModifiers (createCalculator (v\<lparr>getType := t1\<rparr>)) risk =
     applyModifiers (createCalculator (v\<lparr>getType := t2\<rparr>)) risk \<and>
   calculateTotalRisk (createCalculator (v\<lparr>getType := t1\<rparr>)) =
     calculateTotalRisk (createCalculator (v\<lparr>getType := t2\<rparr>)) \<and>
   categorizeRisk (calculateTotalRisk (createCalculator (v\<lparr>getType := t1\<rparr>))) =
     categorizeRisk (calculateTotalRisk (createCalculator (v\<lparr>getType := t2\<rparr>))) \<and>
   assessVehicleRisk (v\<lparr>getType := t1\<rparr>) sys = assessVehicleRisk (v\<lparr>getType := t2\<rparr>) sys"
  by (simp add: createCalculator_def assessVehicleRisk_def vehicleId_def)


section \<open>Properties of the assessment record\<close>

lemma map_assign_Cons:
  "map_assign k v ((k', v') # rest) =
     (if k' < k then (k', v') # map_assign k v rest
      else if k < k' then (k, v) # (k', v') # rest
      else (k, v) # rest)"
  by (auto simp add: not_less)

lemma map_of_map_assign: "map_of (map_assign k v m) = (map_of m)(k \<mapsto> v)"
  by (induction m) (auto simp add: map_assign_Cons fun_eq_iff simp del: map_assign.simps(2))

lemma map_assign_twice: "map_assign k v2 (map_assign k v1 m) = map_assign k v2 m"
  by (induction m) (auto simp add: map_assign_Cons simp del: map_assign.simps(2))

lemma filter_map_assign:
  "filter (\<lambda>e. fst e \<noteq> k) (map_assign k v m) = filter (\<lambda>e. fst e \<noteq> k) m"
  by (induction m) (auto simp add: map_assign_Cons simp del: map_assign.simps(2))

lemma keys_map_assign: "set (map fst (map_assign k v m)) = insert k (set (map fst m))"
  by (induction k v m rule: map_assign.induct)
    (simp_all add: map_assign_Cons insert_commute del: map_assign.simps(2))

lemma sorted_map_assign:
  "sorted_wrt (<) (map fst m) \<Longrightarrow> sorted_wrt (<) (map fst (map_assign k v m))"
proof (induction m)
  case Nil
  then show ?case by simp
next
  case (Cons e m)
  obtain k' v' where e: "e = (k', v')" by (cases e)
  have tl: "sorted_wrt (<) (map fst (map_assign k v m))"
    using Cons by simp
  have hd: "\<forall>x \<in> set (map fst m). k' < x" using Cons.prems e by simp
  show ?case
  proof (cases "k' < k")
    case True
    then show ?thesis using tl hd e by (simp add: keys_map_assign del: set_map)
  next
    case False
    then show ?thesis using Cons.prems hd e
      by (auto simp add: map_assign_Cons simp del: map_assign.simps(2))
  qed
qed

lemma sorted_assessVehicleRisk:
  "sorted_wrt (<) (map fst (riskCategories sys)) \<Longrightarrow>
   sorted_wrt (<) (map fst (riskCategories (assessVehicleRisk v sys)))"
  by (simp add: assessVehicleRisk_def Let_def sorted_map_assign)

lemma sorted_assess_each:
  "sorted_wrt (<) (map fst (riskCategories sys)) \<Longrightarrow>
   sorted_wrt (<) (map fst (riskCategories (assess_each sys vs)))"
  by (induction vs arbitrary: sys) (simp_all add: sorted_assessVehicleRisk)

lemma riskLevelStr_names:
  "riskLevelStr l = (case l of LOW \<Rightarrow> ''LOW'' | MEDIUM \<Rightarrow> ''MEDIUM'' | HIGH \<Rightarrow> ''HIGH'')"
  by (cases l) simp_all

lemma print_entries_concat:
  "print_entries m = concat (map (\<lambda>e. report_line (fst e) (snd e)) m)"
  by (induction m) (simp_all add: report_line_def newline_def riskLevelStr_names)

lemma entries_by_keys:
  "distinct (map fst m) \<Longrightarrow>
   map (\<lambda>k. report_line k (the (map_of m k))) (map fst m) =
   map (\<lambda>e. report_line (fst e) (snd e)) m"
proof (induction m)
  case Nil
  then show ?case by simp
next
  case (Cons e m)
  have "map (\<lambda>k. report_line k (the (map_of (e # m) k))) (map fst m)
      = map (\<lambda>k. report_line k (the (map_of m k))) (map fst m)"
  proof (rule map_cong [OF refl])
    fix k assume "k \<in> set (map fst m)"
    then have "k \<noteq> fst e" using Cons.prems by (simp only: list.map distinct.simps) blast
    then show "report_line k (the (map_of (e # m) k)) = report_line k (the (map_of m k))"
      by simp
  qed
  then show ?case using Cons by simp
qed

lemma report_sorted:
  assumes "sorted_wrt (<) (map fst m)"
  shows "print_entries m = report_of_map (map_of m)"
proof -
  have sd: "sorted (map fst m)" "distinct (map fst m)"
    using assms by (simp_all add: strict_sorted_iff)
  have "sorted_list_of_set (dom (map_of m)) = map fst m"
    using sd by (simp add: dom_map_of_conv_image_fst sorted_list_of_set.idem_if_sorted_distinct flip: set_map)
  then show ?thesis
    unfolding report_of_map_def print_entries_concat using entries_by_keys [OF sd(2)]
    by (simp only:)
qed


lemma one_entry_per_key:
  "distinct (map fst m) \<Longrightarrow> k \<in> set (map fst m) \<Longrightarrow>
   length (filter (\<lambda>e. fst e = k) m) = 1"
proof (induction m)
  case Nil
  then show ?case by simp
next
  case (Cons e m)
  show ?case
  proof (cases "fst e = k")
    case True
    then have "k \<notin> fst ` set m" using Cons.prems by simp
    then have "filter (\<lambda>e. fst e = k) m = []"
      by (force simp add: filter_empty_conv)
    then show ?thesis using True by simp
  next
    case False
    then show ?thesis using Cons by simp
  qed
qed

lemma sorted_new_system: "sorted_wrt (<) (map fst (riskCategories new_system))"
  by (simp add: new_system_def)

lemma riskCategories_assess:
  "riskCategories (assessVehicleRisk v sys) =
     map_assign (vehicleId v) (categorizeRisk (calculateTotalRisk (createCalculator v)))
       (riskCategories sys)"
  by (simp add: assessVehicleRisk_def Let_def)

text \<open>
  C5. \<open>assessVehicleRisk\<close> upserts by the identifier \<open>make + " " + model\<close>. When a
  second vehicle with the same identifier is assessed, the record maps the identifier to
  the category of the second vehicle and is the record that results from assessing the
  second vehicle alone, so nothing of the first assessment is kept. When the identifiers
  differ, both are present afterwards, each with the category of its own vehicle. In a
  record built by \<open>main\<close> the identifier just assessed has exactly one entry.
\<close>

theorem assess_upserts_by_identifier:
  "(vehicleId v1 = vehicleId v2 \<longrightarrow>
      map_of (riskCategories (assessVehicleRisk v2 (assessVehicleRisk v1 sys))) (vehicleId v2) =
        Some (categorizeRisk (calculateTotalRisk (createCalculator v2))) \<and>
      assessVehicleRisk v2 (assessVehicleRisk v1 sys) = assessVehicleRisk v2 sys) \<and>
   (vehicleId v1 \<noteq> vehicleId v2 \<longrightarrow>
      map_of (riskCategories (assessVehicleRisk v2 (assessVehicleRisk v1 sys))) (vehicleId v1) =
        Some (categorizeRisk (calculateTotalRisk (createCalculator v1))) \<and>
      map_of (riskCategories (assessVehicleRisk v2 (assessVehicleRisk v1 sys))) (vehicleId v2) =
        Some (categorizeRisk (calculateTotalRisk (createCalculator v2)))) \<and>
   length (filter (\<lambda>e. fst e = vehicleId v2)
     (riskCategories (assessVehicleRisk v2 (assessVehicleRisk v1 (assess_each new_system vs))))) = 1"
proof -
  have same: "vehicleId v1 = vehicleId v2 \<Longrightarrow>
      assessVehicleRisk v2 (assessVehicleRisk v1 sys) = assessVehicleRisk v2 sys"
    by (simp add: assessVehicleRisk_def Let_def map_assign_twice)
  have "sorted_wrt (<) (map fst
     (riskCategories (assessVehicleRisk v2 (assessVehicleRisk v1 (assess_each new_system vs)))))"
    by (intro sorted_assessVehicleRisk sorted_assess_each sorted_new_system)
  then have "distinct (map fst
     (riskCategories (assessVehicleRisk v2 (assessVehicleRisk v1 (assess_each new_system vs)))))"
    by (simp add: strict_sorted_iff)
  moreover have "vehicleId v2 \<in> set (map fst
     (riskCategories (assessVehicleRisk v2 (assessVehicleRisk v1 (assess_each new_system vs)))))"
    by (simp only: riskCategories_assess [of v2] keys_map_assign) simp
  ultimately have one: "length (filter (\<lambda>e. fst e = vehicleId v2)
     (riskCategories (assessVehicleRisk v2 (assessVehicleRisk v1 (assess_each new_system vs))))) = 1"
    by (rule one_entry_per_key)
  show ?thesis
    using same one by (simp add: riskCategories_assess map_of_map_assign)
qed

theorem assess_upserts_by_identifier_witness:
  "map_of (riskCategories
      (assessVehicleRisk
         \<lparr>getMake = ''Ford'', getModel = ''F150'', getYear = 2014, getType = TRUCK,
          getAccidentCount = 2, getIsCommercial = True\<rparr>
         (assessVehicleRisk
            \<lparr>getMake = ''Ford'', getModel = ''F150'', getYear = 2024, getType = CAR,
             getAccidentCount = 0, getIsCommercial = False\<rparr> new_system)))
     ''Ford F150'' = Some HIGH \<and>
   map_of (riskCategories
      (assessVehicleRisk
         \<lparr>getMake = ''Ford'', getModel = ''F150'', getYear = 2014, getType = TRUCK,
          getAccidentCount = 2, getIsCommercial = True\<rparr>
         (assessVehicleRisk
            \<lparr>getMake = ''Toyota'', getModel = ''Corolla'', getYear = 2024, getType = CAR,
             getAccidentCount = 0, getIsCommercial = False\<rparr> new_system)))
     ''Toyota Corolla'' = Some LOW"
proof -
  have ford: "categorizeRisk (calculateTotalRisk (createCalculator
         \<lparr>getMake = ''Ford'', getModel = ''F150'', getYear = 2014, getType = TRUCK,
          getAccidentCount = 2, getIsCommercial = True\<rparr>)) = HIGH"
    by code_simp
  have toyota: "categorizeRisk (calculateTotalRisk (createCalculator
         \<lparr>getMake = ''Toyota'', getModel = ''Corolla'', getYear = 2024, getType = CAR,
          getAccidentCount = 0, getIsCommercial = False\<rparr>)) = LOW"
    by code_simp
  let ?earlier = "\<lparr>getMake = ''Ford'', getModel = ''F150'', getYear = 2024, getType = CAR,
              getAccidentCount = 0, getIsCommercial = False\<rparr>"
  let ?ford = "\<lparr>getMake = ''Ford'', getModel = ''F150'', getYear = 2014, getType = TRUCK,
              getAccidentCount = 2, getIsCommercial = True\<rparr>"
  let ?toyota = "\<lparr>getMake = ''Toyota'', getModel = ''Corolla'', getYear = 2024, getType = CAR,
              getAccidentCount = 0, getIsCommercial = False\<rparr>"
  have ids: "vehicleId ?earlier = ''Ford F150''" "vehicleId ?ford = ''Ford F150''"
    "vehicleId ?toyota = ''Toyota Corolla''"
    by (simp_all add: vehicleId_def)
  have "vehicleId ?earlier = vehicleId ?ford" by (simp only: ids)
  with assess_upserts_by_identifier [of ?earlier ?ford new_system "[]"]
  have d: "map_of (riskCategories (assessVehicleRisk ?ford (assessVehicleRisk ?earlier new_system)))
      (vehicleId ?ford) = Some (categorizeRisk (calculateTotalRisk (createCalculator ?ford)))"
    by blast
  have "vehicleId ?toyota \<noteq> vehicleId ?ford" by (simp only: ids) simp
  with assess_upserts_by_identifier [of ?toyota ?ford new_system "[]"]
  have c: "map_of (riskCategories (assessVehicleRisk ?ford (assessVehicleRisk ?toyota new_system)))
      (vehicleId ?toyota) = Some (categorizeRisk (calculateTotalRisk (createCalculator ?toyota)))"
    by blast
  show ?thesis
    using d c by (simp only: ids ford toyota simp_thms)
qed

text \<open>
  C9. \<open>assessVehicleRisk\<close> changes at most the entry of the vehicle's own identifier:
  every other key is mapped as before, and the entries with other keys are the same
  entries in the same order.
\<close>

theorem assess_changes_own_entry_only:
  assumes "k \<noteq> vehicleId v"
  shows "map_of (riskCategories (assessVehicleRisk v sys)) k = map_of (riskCategories sys) k \<and>
         filter (\<lambda>e. fst e \<noteq> vehicleId v) (riskCategories (assessVehicleRisk v sys)) =
           filter (\<lambda>e. fst e \<noteq> vehicleId v) (riskCategories sys)"
  using assms by (simp add: riskCategories_assess map_of_map_assign filter_map_assign)

theorem assess_changes_own_entry_only_witness:
  "map_of (riskCategories
      (assessVehicleRisk
         \<lparr>getMake = ''Ford'', getModel = ''F150'', getYear = 2014, getType = TRUCK,
          getAccidentCount = 2, getIsCommercial = True\<rparr>
         \<lparr>riskCategories = [(''Toyota Corolla'', LOW)]\<rparr>))
     ''Toyota Corolla'' = Some LOW"
  using assess_changes_own_entry_only
    [of "''Toyota Corolla''"
        "\<lparr>getMake = ''Ford'', getModel = ''F150'', getYear = 2014, getType = TRUCK,
          getAccidentCount = 2, getIsCommercial = True\<rparr>"
        "\<lparr>riskCategories = [(''Toyota Corolla'', LOW)]\<rparr>"]
  by (simp add: vehicleId_def)

text \<open>
  C10. For every record that \<open>main\<close> can build, the keys of the entries are in strictly
  ascending lexicographic order, and \<open>printRiskAssessment\<close> prints, for each key once and
  in that order, the two lines \<open>Vehicle: <identifier>\<close> and \<open>Risk Level: \<close> followed by
  \<open>LOW\<close>, \<open>MEDIUM\<close> or \<open>HIGH\<close>, the name of the key's category. Assessing Toyota
  Corolla (LOW), then Ford F150 (HIGH), then a commercial Honda Civic (MEDIUM) prints
  Ford F150, Honda Civic, Toyota Corolla.
\<close>

theorem report_in_key_order:
  "sorted_wrt (<) (map fst (riskCategories (assess_each new_system vs))) \<and>
   printRiskAssessment (assess_each new_system vs) =
     report_of_map (map_of (riskCategories (assess_each new_system vs))) \<and>
   printRiskAssessment \<lparr>riskCategories = [(k, LOW)]\<rparr> =
     ''Vehicle: '' @ k @ ''\<newline>Risk Level: LOW\<newline>'' \<and>
   printRiskAssessment \<lparr>riskCategories = [(k, MEDIUM)]\<rparr> =
     ''Vehicle: '' @ k @ ''\<newline>Risk Level: MEDIUM\<newline>'' \<and>
   printRiskAssessment \<lparr>riskCategories = [(k, HIGH)]\<rparr> =
     ''Vehicle: '' @ k @ ''\<newline>Risk Level: HIGH\<newline>'' \<and>
   printRiskAssessment (assess_each new_system
      [\<lparr>getMake = ''Toyota'', getModel = ''Corolla'', getYear = 2024, getType = CAR,
        getAccidentCount = 0, getIsCommercial = False\<rparr>,
       \<lparr>getMake = ''Ford'', getModel = ''F150'', getYear = 2014, getType = TRUCK,
        getAccidentCount = 2, getIsCommercial = True\<rparr>,
       \<lparr>getMake = ''Honda'', getModel = ''Civic'', getYear = 2024, getType = CAR,
        getAccidentCount = 0, getIsCommercial = True\<rparr>]) =
     ''Vehicle: Ford F150\<newline>Risk Level: HIGH\<newline>Vehicle: Honda Civic\<newline>Risk Level: MEDIUM\<newline>Vehicle: Toyota Corolla\<newline>Risk Level: LOW\<newline>''"
proof -
  have s: "sorted_wrt (<) (map fst (riskCategories (assess_each new_system vs)))"
    by (intro sorted_assess_each sorted_new_system)
  have one: "printRiskAssessment \<lparr>riskCategories = [(k, LOW)]\<rparr> =
       ''Vehicle: '' @ k @ ''\<newline>Risk Level: LOW\<newline>''"
     "printRiskAssessment \<lparr>riskCategories = [(k, MEDIUM)]\<rparr> =
       ''Vehicle: '' @ k @ ''\<newline>Risk Level: MEDIUM\<newline>''"
     "printRiskAssessment \<lparr>riskCategories = [(k, HIGH)]\<rparr> =
       ''Vehicle: '' @ k @ ''\<newline>Risk Level: HIGH\<newline>''"
    by (simp_all add: printRiskAssessment_def newline_def)
  have three: "printRiskAssessment (assess_each new_system
      [\<lparr>getMake = ''Toyota'', getModel = ''Corolla'', getYear = 2024, getType = CAR,
        getAccidentCount = 0, getIsCommercial = False\<rparr>,
       \<lparr>getMake = ''Ford'', getModel = ''F150'', getYear = 2014, getType = TRUCK,
        getAccidentCount = 2, getIsCommercial = True\<rparr>,
       \<lparr>getMake = ''Honda'', getModel = ''Civic'', getYear = 2024, getType = CAR,
        getAccidentCount = 0, getIsCommercial = True\<rparr>]) =
     ''Vehicle: Ford F150\<newline>Risk Level: HIGH\<newline>Vehicle: Honda Civic\<newline>Risk Level: MEDIUM\<newline>Vehicle: Toyota Corolla\<newline>Risk Level: LOW\<newline>''"
    by code_simp
  have r: "printRiskAssessment (assess_each new_system vs) =
     report_of_map (map_of (riskCategories (assess_each new_system vs)))"
    using report_sorted [OF s] by (simp only: printRiskAssessment_def)
  show ?thesis
    using s r one three by (intro conjI)
qed


section \<open>Properties of the console input\<close>

lemma extract_int_int32: "extract_int inp = (Some n, rest) \<Longrightarrow> int32 n"
  by (auto simp add: extract_int_def Let_def split: prod.splits if_splits)

lemma year_input_loop_sound:
  assumes "year_input_loop con = Some r"
  shows "1970 \<le> fst r \<and> fst r \<le> 2024"
  using assms
proof (induct rule: year_input_loop.raw_induct [rotated 1, consumes 1])
  case (1 year_input_loop con r)
  then show ?case
    by (auto split: prod.splits option.splits if_splits)
qed

lemma year_input_loop_output:
  assumes "year_input_loop con = Some r"
  shows "\<exists>k. cout (snd r) = cout con @ concat (replicate k year_error_message)"
  using assms
proof (induct rule: year_input_loop.raw_induct [rotated 1, consumes 1])
  case (1 year_input_loop con r)
  show ?case
  proof (cases "extract_int (cin con)")
    case (Pair x rest)
    show ?thesis
    proof (cases "case x of None \<Rightarrow> True | Some year \<Rightarrow> year < 1970 \<or> year > 2024")
      case True
      then have "year_input_loop \<lparr>cin = cin_ignore_line rest, cout = cout con @ year_error_message\<rparr> = Some r"
        using 1(2) Pair by (auto split: option.splits)
      from 1(1) [OF this] obtain k where
        "cout (snd r) = (cout con @ year_error_message) @ concat (replicate k year_error_message)"
        by auto
      then have "cout (snd r) = cout con @ concat (replicate (Suc k) year_error_message)"
        by simp
      then show ?thesis by blast
    next
      case False
      then have "cout (snd r) = cout con @ concat (replicate 0 year_error_message)"
        using 1(2) Pair by (auto split: option.splits)
      then show ?thesis by blast
    qed
  qed
qed

lemma year_input_loop_needs_input:
  assumes "year_input_loop con = Some r"
  shows "cin con \<noteq> []"
  using assms
proof (induct rule: year_input_loop.raw_induct [rotated 1, consumes 1])
  case (1 year_input_loop con r)
  show ?case
  proof
    assume e: "cin con = []"
    then have "extract_int (cin con) = (None, [])"
      by (simp add: extract_int_def)
    then have "year_input_loop \<lparr>cin = cin_ignore_line [], cout = cout con @ year_error_message\<rparr> = Some r"
      using 1(2) by simp
    from 1(1) [OF this] show False by (simp add: cin_ignore_line_def)
  qed
qed

lemma accident_input_loop_sound:
  assumes "accident_input_loop con = Some r"
  shows "0 \<le> fst r \<and> int32 (fst r)"
  using assms
proof (induct rule: accident_input_loop.raw_induct [rotated 1, consumes 1])
  case (1 accident_input_loop con r)
  then show ?case
    by (auto split: prod.splits option.splits if_splits dest: extract_int_int32)
qed


lemma extract_year_line:
  "extract_int (''1969\<newline>'' @ inp) = (Some 1969, ''\<newline>'' @ inp)"
  "extract_int (''1970\<newline>'' @ inp) = (Some 1970, ''\<newline>'' @ inp)"
  "extract_int (''2024\<newline>'' @ inp) = (Some 2024, ''\<newline>'' @ inp)"
  "extract_int (''2025\<newline>'' @ inp) = (Some 2025, ''\<newline>'' @ inp)"
  by (simp_all add: extract_int_def isspace_def isdigit_def decimal_def digit_value_def
      int32_def less_eq_char_def Let_def)

lemma cin_ignore_line_newline: "cin_ignore_line (''\<newline>'' @ inp) = inp"
  by (simp add: cin_ignore_line_def newline_def)

lemma year_input_loop_unfold:
  "year_input_loop con =
     (case extract_int (cin con) of
        (r, rest) \<Rightarrow>
          if (case r of None \<Rightarrow> False | Some n \<Rightarrow> 1970 \<le> n \<and> n \<le> 2024)
          then Some (the r, \<lparr>cin = rest, cout = cout con\<rparr>)
          else year_input_loop
                 \<lparr>cin = cin_ignore_line rest,
                  cout = cout con @ ''Invalid year. Please enter a year between 1900 and 2024: ''\<rparr>)"
  by (subst year_input_loop.simps)
    (auto simp add: year_error_message_def split: prod.splits option.splits)

text \<open>
  C6. The loop that reads the year returns only years from 1970 to 2024, and all it
  writes are repetitions of the message, which names the range 1900 to 2024. When the
  next extraction yields an integer from 1970 to 2024 the loop ends with it and writes
  nothing; otherwise it writes the message, discards the rest of the line and tries
  again. So 1970 and 2024 are accepted and 1969 and 2025 are rejected. At the end of
  input the loop never exits.
\<close>

theorem year_input_loop_accepts_1970_to_2024:
  "(year_input_loop con = Some (y, con') \<longrightarrow>
      1970 \<le> y \<and> y \<le> 2024 \<and>
      (\<exists>k. cout con' = cout con @ concat (replicate k
         ''Invalid year. Please enter a year between 1900 and 2024: ''))) \<and>
   year_input_loop con =
     (case extract_int (cin con) of
        (r, rest) \<Rightarrow>
          if (case r of None \<Rightarrow> False | Some n \<Rightarrow> 1970 \<le> n \<and> n \<le> 2024)
          then Some (the r, \<lparr>cin = rest, cout = cout con\<rparr>)
          else year_input_loop
                 \<lparr>cin = cin_ignore_line rest,
                  cout = cout con @ ''Invalid year. Please enter a year between 1900 and 2024: ''\<rparr>) \<and>
   year_input_loop \<lparr>cin = ''1970\<newline>'' @ inp, cout = out\<rparr> =
     Some (1970, \<lparr>cin = ''\<newline>'' @ inp, cout = out\<rparr>) \<and>
   year_input_loop \<lparr>cin = ''2024\<newline>'' @ inp, cout = out\<rparr> =
     Some (2024, \<lparr>cin = ''\<newline>'' @ inp, cout = out\<rparr>) \<and>
   year_input_loop \<lparr>cin = ''1969\<newline>'' @ inp, cout = out\<rparr> =
     year_input_loop
       \<lparr>cin = inp,
        cout = out @ ''Invalid year. Please enter a year between 1900 and 2024: ''\<rparr> \<and>
   year_input_loop \<lparr>cin = ''2025\<newline>'' @ inp, cout = out\<rparr> =
     year_input_loop
       \<lparr>cin = inp,
        cout = out @ ''Invalid year. Please enter a year between 1900 and 2024: ''\<rparr> \<and>
   year_input_loop \<lparr>cin = [], cout = out\<rparr> = None"
proof -
  have a: "year_input_loop con = Some (y, con') \<longrightarrow>
      1970 \<le> y \<and> y \<le> 2024 \<and>
      (\<exists>k. cout con' = cout con @ concat (replicate k
         ''Invalid year. Please enter a year between 1900 and 2024: ''))"
    using year_input_loop_sound [of con "(y, con')"] year_input_loop_output [of con "(y, con')"]
    by (simp add: year_error_message_def)
  have c1970: "year_input_loop \<lparr>cin = ''1970\<newline>'' @ inp, cout = out\<rparr> =
     Some (1970, \<lparr>cin = ''\<newline>'' @ inp, cout = out\<rparr>)"
    by (subst year_input_loop_unfold) (simp add: extract_year_line del: append.simps)
  have c2024: "year_input_loop \<lparr>cin = ''2024\<newline>'' @ inp, cout = out\<rparr> =
     Some (2024, \<lparr>cin = ''\<newline>'' @ inp, cout = out\<rparr>)"
    by (subst year_input_loop_unfold) (simp add: extract_year_line del: append.simps)
  have c1969: "year_input_loop \<lparr>cin = ''1969\<newline>'' @ inp, cout = out\<rparr> =
     year_input_loop
       \<lparr>cin = inp,
        cout = out @ ''Invalid year. Please enter a year between 1900 and 2024: ''\<rparr>"
    by (subst year_input_loop_unfold)
      (simp add: extract_year_line cin_ignore_line_newline del: append.simps)
  have c2025: "year_input_loop \<lparr>cin = ''2025\<newline>'' @ inp, cout = out\<rparr> =
     year_input_loop
       \<lparr>cin = inp,
        cout = out @ ''Invalid year. Please enter a year between 1900 and 2024: ''\<rparr>"
    by (subst year_input_loop_unfold)
      (simp add: extract_year_line cin_ignore_line_newline del: append.simps)
  have eof: "year_input_loop \<lparr>cin = [], cout = out\<rparr> = None"
  proof (cases "year_input_loop \<lparr>cin = [], cout = out\<rparr>")
    case None
    then show ?thesis .
  next
    case (Some r)
    from year_input_loop_needs_input [OF this] show ?thesis by simp
  qed
  show ?thesis
    using a year_input_loop_unfold [of con] c1970 c2024 c1969 c2025 eof by (intro conjI)
qed

theorem year_input_loop_accepts_1970_to_2024_witness:
  "year_input_loop \<lparr>cin = ''1969\<newline>2025\<newline>1970\<newline>'', cout = []\<rparr> =
     Some (1970, \<lparr>cin = ''\<newline>'',
       cout = ''Invalid year. Please enter a year between 1900 and 2024: Invalid year. Please enter a year between 1900 and 2024: ''\<rparr>) \<and>
   (1970 :: int) \<le> 1970 \<and> (1970 :: int) \<le> 2024"
proof -
  have run: "year_input_loop \<lparr>cin = ''1969\<newline>2025\<newline>1970\<newline>'', cout = []\<rparr> =
     Some (1970, \<lparr>cin = ''\<newline>'',
       cout = ''Invalid year. Please enter a year between 1900 and 2024: Invalid year. Please enter a year between 1900 and 2024: ''\<rparr>)"
    by code_simp
  from year_input_loop_accepts_1970_to_2024
    [of "\<lparr>cin = ''1969\<newline>2025\<newline>1970\<newline>'', cout = []\<rparr>" 1970
        "\<lparr>cin = ''\<newline>'',
       cout = ''Invalid year. Please enter a year between 1900 and 2024: Invalid year. Please enter a year between 1900 and 2024: ''\<rparr>"] run
  show ?thesis by blast
qed

end
